theory Spec2Isabelle
  imports Complex_Main "HOL-Library.Char_ord" "HOL-Library.List_Lexorder" "HOL-Library.Multiset"
begin

section \<open>Text\<close>

text \<open>
  A Python \<open>str\<close> is modelled as a \<open>string\<close> holding its UTF-8 bytes. Comparing two such
  byte strings lexicographically orders them as Python orders the texts (by code point).
  \<open>lower\<close> maps the ASCII capitals to small letters and leaves every other byte alone;
  for the two ASCII needles searched below this decides the same as \<open>str.lower\<close>.
\<close>

definition lower_char :: "char \<Rightarrow> char" where
  "lower_char c =
     (let n = (of_char c :: nat) in if 65 \<le> n \<and> n \<le> 90 then char_of (n + 32) else c)"

definition lower :: "string \<Rightarrow> string" where
  "lower s = map lower_char s"

fun starts_with :: "string \<Rightarrow> string \<Rightarrow> bool" where
  "starts_with [] s = True"
| "starts_with (p # ps) [] = False"
| "starts_with (p # ps) (c # cs) = (p = c \<and> starts_with ps cs)"

text \<open>\<open>contains needle s\<close> is Python's \<open>needle in s\<close>.\<close>

fun contains :: "string \<Rightarrow> string \<Rightarrow> bool" where
  "contains needle [] = (needle = [])"
| "contains needle (c # cs) = (starts_with needle (c # cs) \<or> contains needle cs)"

section \<open>AI gateway: \<open>call_gemini_with_retry\<close>\<close>

text \<open>
  \<open>st.session_state\<close> is a dictionary; the three keys the gateway reads may be absent,
  and \<open>.get\<close> supplies a default then.
\<close>

record session =
  api_keys :: "string list option"
  model_name :: "string option"
  current_api_key_index :: "int option"

text \<open>
  What the body of the \<open>try\<close> block meets for one credential. Either configuring the
  client or the generation request raises (\<open>CallRaises\<close>, with \<open>str(e)\<close>); or the request
  returns a response whose \<open>.text\<close> is read after the cursor has been stored, and that
  read yields the text (\<open>Text\<close>) or raises in its turn (\<open>TextRaises\<close>), still inside
  the \<open>try\<close>.
\<close>

datatype api_outcome = CallRaises string | TextRaises string | Text string

text \<open>
  The provider, as the gateway sees it during one invocation: the outcome of the attempt
  with a given number, credential, model name, prompt and generation configuration.
\<close>

type_synonym 'c provider = "nat \<Rightarrow> string \<Rightarrow> string \<Rightarrow> string \<Rightarrow> 'c \<Rightarrow> api_outcome"

text \<open>The four \<open>return\<close> statements of the function, and the string each one returns.\<close>

datatype ret = Generated string | AllExhausted | ErrorMsg string | Fallback

definition msg_all_exhausted :: string where
  "msg_all_exhausted =
     [CHR 0xE2, CHR 0x9D, CHR 0x8C] @ '' '' @ [CHR 0xEB, CHR 0xAA, CHR 0xA8, CHR 0xEB, CHR 0x93, CHR 0xA0]
     @ '' API '' @ [CHR 0xED, CHR 0x82, CHR 0xA4, CHR 0xEC, CHR 0x9D, CHR 0x98] @ '' ''
     @ [CHR 0xED, CHR 0x95, CHR 0xA0, CHR 0xEB, CHR 0x8B, CHR 0xB9, CHR 0xEB, CHR 0x9F, CHR 0x89,
        CHR 0xEC, CHR 0x9D, CHR 0xB4] @ '' ''
     @ [CHR 0xEC, CHR 0xB4, CHR 0x88, CHR 0xEA, CHR 0xB3, CHR 0xBC, CHR 0xEB, CHR 0x90, CHR 0x98,
        CHR 0xEC, CHR 0x97, CHR 0x88, CHR 0xEC, CHR 0x8A, CHR 0xB5, CHR 0xEB, CHR 0x8B, CHR 0x88,
        CHR 0xEB, CHR 0x8B, CHR 0xA4] @ ''. ''
     @ [CHR 0xEB, CHR 0x82, CHR 0xB4, CHR 0xEC, CHR 0x9D, CHR 0xBC] @ '' ''
     @ [CHR 0xEB, CHR 0x8B, CHR 0xA4, CHR 0xEC, CHR 0x8B, CHR 0x9C] @ '' ''
     @ [CHR 0xEC, CHR 0x8B, CHR 0x9C, CHR 0xEB, CHR 0x8F, CHR 0x84, CHR 0xED, CHR 0x95, CHR 0xB4,
        CHR 0xEC, CHR 0xA3, CHR 0xBC, CHR 0xEC, CHR 0x84, CHR 0xB8, CHR 0xEC, CHR 0x9A, CHR 0x94] @ ''.''"

definition msg_error_prefix :: string where
  "msg_error_prefix =
     [CHR 0xE2, CHR 0x9D, CHR 0x8C] @ '' ''
     @ [CHR 0xEC, CHR 0x98, CHR 0xA4, CHR 0xEB, CHR 0xA5, CHR 0x98] @ '': ''"

definition msg_call_failed :: string where
  "msg_call_failed =
     [CHR 0xE2, CHR 0x9D, CHR 0x8C] @ '' API ''
     @ [CHR 0xED, CHR 0x98, CHR 0xB8, CHR 0xEC, CHR 0xB6, CHR 0x9C] @ '' ''
     @ [CHR 0xEC, CHR 0x8B, CHR 0xA4, CHR 0xED, CHR 0x8C, CHR 0xA8]"

fun render :: "ret \<Rightarrow> string" where
  "render (Generated t) = t"
| "render AllExhausted = msg_all_exhausted"
| "render (ErrorMsg error_msg) = msg_error_prefix @ error_msg"
| "render Fallback = msg_call_failed"

definition default_model :: string where
  "default_model = ''gemini-3-flash-preview''"

text \<open>The notices shown on the page; each names a credential position, counted from 1.\<close>

datatype notice = Info nat | Warning nat

text \<open>
  What one invocation leaves behind: the session state, the indices of the credentials
  it tried, in order (one entry per pass through the \<open>try\<close> block), and the notices.
\<close>

record world =
  state :: session
  calls :: "nat list"
  notices :: "notice list"

definition is_quota_error :: "string \<Rightarrow> bool" where
  "is_quota_error error_msg =
     (contains ''quota'' (lower error_msg) \<or> contains ''limit'' (lower error_msg))"

definition store_index :: "nat \<Rightarrow> world \<Rightarrow> world" where
  "store_index current_index w =
     w\<lparr>state := (state w)\<lparr>current_api_key_index := Some (int current_index)\<rparr>\<rparr>"

definition show_info :: "nat \<Rightarrow> nat \<Rightarrow> world \<Rightarrow> world" where
  "show_info attempt current_index w =
     (if attempt > 0 then w\<lparr>notices := notices w @ [Info (current_index + 1)]\<rparr> else w)"

definition show_warning :: "nat \<Rightarrow> world \<Rightarrow> world" where
  "show_warning current_index w = w\<lparr>notices := notices w @ [Warning (current_index + 1)]\<rparr>"

text \<open>
  The body of the \<open>try\<close> block for one attempt: \<open>Inr\<close> is the \<open>return response.text\<close>,
  \<open>Inl\<close> the exception that reaches the handler, each with the world as it is then.
\<close>

definition try_body ::
  "'c provider \<Rightarrow> string \<Rightarrow> 'c \<Rightarrow> string \<Rightarrow> string \<Rightarrow> nat \<Rightarrow> nat \<Rightarrow> world \<Rightarrow> (string \<times> world) + (string \<times> world)"
where
  "try_body api prompt generation_config current_key mname attempt current_index w =
     (case api attempt current_key mname prompt generation_config of
        CallRaises e \<Rightarrow> Inl (e, w)
      | TextRaises e \<Rightarrow> Inl (e, show_info attempt current_index (store_index current_index w))
      | Text t \<Rightarrow> Inr (t, show_info attempt current_index (store_index current_index w)))"

text \<open>
  The \<open>for attempt in range(len(api_keys))\<close> loop, by recursion on the attempts still to
  come; running out of attempts falls through to the statement after the loop.
\<close>

fun retry_loop ::
  "'c provider \<Rightarrow> string \<Rightarrow> 'c \<Rightarrow> string list \<Rightarrow> string \<Rightarrow> int \<Rightarrow> nat list \<Rightarrow> world \<Rightarrow> ret \<times> world"
where
  "retry_loop api prompt generation_config keys mname start_index [] w = (Fallback, w)"
| "retry_loop api prompt generation_config keys mname start_index (attempt # rest) w =
     (let current_index = nat ((start_index + int attempt) mod int (length keys));
          current_key = keys ! current_index;
          w1 = w\<lparr>calls := calls w @ [current_index]\<rparr>
      in case try_body api prompt generation_config current_key mname attempt current_index w1 of
           Inr (t, w2) \<Rightarrow> (Generated t, w2)
         | Inl (error_msg, w2) \<Rightarrow>
             if is_quota_error error_msg then
               if int attempt < int (length keys) - 1 then
                 retry_loop api prompt generation_config keys mname start_index rest
                   (show_warning current_index w2)
               else (AllExhausted, w2)
             else (ErrorMsg error_msg, w2))"

text \<open>The three reads of the session state at the head of the function, with their defaults.\<close>

definition session_keys :: "session \<Rightarrow> string list" where
  "session_keys s = (case api_keys s of None \<Rightarrow> [] | Some ks \<Rightarrow> ks)"

definition session_model :: "session \<Rightarrow> string" where
  "session_model s = (case model_name s of None \<Rightarrow> default_model | Some m \<Rightarrow> m)"

definition session_start :: "session \<Rightarrow> int" where
  "session_start s = (case current_api_key_index s of None \<Rightarrow> 0 | Some i \<Rightarrow> i)"

definition call_gemini_with_retry :: "'c provider \<Rightarrow> string \<Rightarrow> 'c \<Rightarrow> session \<Rightarrow> ret \<times> world" where
  "call_gemini_with_retry api prompt generation_config s =
     (let keys = session_keys s;
          mname = session_model s;
          start_index = session_start s
      in retry_loop api prompt generation_config keys mname start_index [0..<length keys]
           \<lparr>state = s, calls = [], notices = []\<rparr>)"

subsection \<open>Vocabulary of the gateway's properties\<close>

text \<open>The credential position that attempt number \<open>attempt\<close> of an invocation uses.\<close>

definition key_index :: "session \<Rightarrow> nat \<Rightarrow> nat" where
  "key_index s attempt =
     nat ((session_start s + int attempt) mod int (length (session_keys s)))"

text \<open>What the provider answers to attempt number \<open>attempt\<close> of an invocation from session \<open>s\<close>.\<close>

definition outcome_at :: "'c provider \<Rightarrow> string \<Rightarrow> 'c \<Rightarrow> session \<Rightarrow> nat \<Rightarrow> api_outcome" where
  "outcome_at api prompt generation_config s attempt =
     api attempt (session_keys s ! key_index s attempt) (session_model s) prompt generation_config"

text \<open>
  The generation request of the attempt returned a response. Reading the text of that
  response may still raise, and the attempt then ends in the handler like any other failure.
\<close>

fun request_returned :: "api_outcome \<Rightarrow> bool" where
  "request_returned (CallRaises e) = False"
| "request_returned (TextRaises e) = True"
| "request_returned (Text t) = True"

text \<open>The message of the exception that an attempt hands to the handler, if it does.\<close>

fun raised :: "api_outcome \<Rightarrow> string option" where
  "raised (CallRaises e) = Some e"
| "raised (TextRaises e) = Some e"
| "raised (Text t) = None"

definition quota_failure :: "api_outcome \<Rightarrow> bool" where
  "quota_failure r = (case raised r of None \<Rightarrow> False | Some e \<Rightarrow> is_quota_error e)"

text \<open>The cursor after the attempts \<open>as\<close>, made in this order, from the cursor \<open>c\<close>.\<close>

definition cursor_after :: "session \<Rightarrow> (nat \<Rightarrow> api_outcome) \<Rightarrow> nat list \<Rightarrow> int option \<Rightarrow> int option" where
  "cursor_after s oc as c =
     (case rev (filter (\<lambda>a. request_returned (oc a)) as) of
        [] \<Rightarrow> c
      | a # _ \<Rightarrow> Some (int (key_index s a)))"

text \<open>
  How many attempts an invocation with \<open>n > 0\<close> credentials makes: it passes over the
  leading quota failures among the first \<open>n - 1\<close> attempts and stops at the next attempt.
\<close>

definition attempts_made :: "(nat \<Rightarrow> api_outcome) \<Rightarrow> nat \<Rightarrow> nat" where
  "attempts_made oc n = Suc (length (takeWhile (\<lambda>a. quota_failure (oc a)) [0..<n - 1]))"

text \<open>What the function returns when it stops at an attempt with this outcome.\<close>

fun answer :: "api_outcome \<Rightarrow> ret" where
  "answer (Text t) = Generated t"
| "answer (CallRaises e) = (if is_quota_error e then AllExhausted else ErrorMsg e)"
| "answer (TextRaises e) = (if is_quota_error e then AllExhausted else ErrorMsg e)"

subsection \<open>Sessions and providers for the examples\<close>

definition rotating_session :: session where
  "rotating_session =
     \<lparr>api_keys = Some [''key-A'', ''key-B'', ''key-C''], model_name = None,
        current_api_key_index = Some 2\<rparr>"

definition rotating_provider :: "unit provider" where
  "rotating_provider attempt current_key mname prompt generation_config =
     (if current_key = ''key-C'' then CallRaises ''429 Quota exceeded''
      else Text (''reply to '' @ prompt))"

definition three_key_session :: session where
  "three_key_session =
     \<lparr>api_keys = Some [''key-A'', ''key-B'', ''key-C''], model_name = None,
        current_api_key_index = Some 0\<rparr>"

definition exhausted_provider :: "unit provider" where
  "exhausted_provider attempt current_key mname prompt generation_config =
     CallRaises ''429 Resource exhausted: rate LIMIT reached''"

definition two_key_session :: session where
  "two_key_session =
     \<lparr>api_keys = Some [''key-A'', ''key-B''], model_name = None,
        current_api_key_index = Some 0\<rparr>"

definition broken_provider :: "unit provider" where
  "broken_provider attempt current_key mname prompt generation_config =
     (if current_key = ''key-A'' then CallRaises ''API key not valid''
      else Text (''reply to '' @ prompt))"

definition blocked_provider :: "unit provider" where
  "blocked_provider attempt current_key mname prompt generation_config =
     (if current_key = ''key-A'' then CallRaises ''429 Quota exceeded''
      else TextRaises ''rate limit hit'')"

definition unconfigured_session :: session where
  "unconfigured_session = \<lparr>api_keys = None, model_name = None, current_api_key_index = None\<rparr>"

definition willing_provider :: "unit provider" where
  "willing_provider attempt current_key mname prompt generation_config = Text (''reply to '' @ prompt)"



section \<open>The record table\<close>

text \<open>
  A value of the date column after \<open>pd.to_datetime\<close>: a calendar date (the time of day
  plays no part below). A timestamp is a valid date of the proleptic Gregorian calendar.
\<close>

record timestamp =
  year :: int
  month :: int
  day :: int

text \<open>
  One row of the sheet. The date is \<open>None\<close> where \<open>errors='coerce'\<close> left \<open>NaT\<close>. The
  other cells are texts: the loader reads an empty cell as the empty string, never as a
  missing value. \<open>others\<close> holds the cells of any further column of the sheet.
\<close>

record entry =
  date :: "timestamp option"
  category :: string
  title :: string
  body :: string
  others :: "(string \<times> string) list"

datatype py_error = TypeError

subsection \<open>ISO week numbers\<close>

text \<open>The week number of \<open>isocalendar()\<close>, computed as the standard library does.\<close>

definition is_leap :: "int \<Rightarrow> bool" where
  "is_leap y = (y mod 4 = 0 \<and> (y mod 100 \<noteq> 0 \<or> y mod 400 = 0))"

definition days_before_year :: "int \<Rightarrow> int" where
  "days_before_year y = (y - 1) * 365 + (y - 1) div 4 - (y - 1) div 100 + (y - 1) div 400"

definition days_before_month :: "int \<Rightarrow> int \<Rightarrow> int" where
  "days_before_month y m =
     [0, 31, 59, 90, 120, 151, 181, 212, 243, 273, 304, 334] ! nat (m - 1)
       + (if m > 2 \<and> is_leap y then 1 else 0)"

definition ymd2ord :: "int \<Rightarrow> int \<Rightarrow> int \<Rightarrow> int" where
  "ymd2ord y m d = days_before_year y + days_before_month y m + d"

definition isoweek1monday :: "int \<Rightarrow> int" where
  "isoweek1monday y =
     (let firstday = ymd2ord y 1 1;
          firstweekday = (firstday + 6) mod 7;
          week1monday = firstday - firstweekday
      in if firstweekday > 3 then week1monday + 7 else week1monday)"

definition iso_week :: "timestamp \<Rightarrow> int" where
  "iso_week t =
     (let today = ymd2ord (year t) (month t) (day t);
          week = (today - isoweek1monday (year t)) div 7
      in if week < 0 then (today - isoweek1monday (year t - 1)) div 7 + 1
         else if week \<ge> 52 \<and> today \<ge> isoweek1monday (year t + 1) then 1
         else week + 1)"

section \<open>Historical week matcher: \<open>get_this_week_history\<close>\<close>

text \<open>\<open>Series.between\<close>, with both ends included.\<close>

definition between :: "int \<Rightarrow> int \<Rightarrow> int \<Rightarrow> bool" where
  "between x lo hi = (lo \<le> x \<and> x \<le> hi)"

text \<open>The row mask built for one year; a row without a date satisfies no comparison.\<close>

definition week_mask :: "timestamp \<Rightarrow> int \<Rightarrow> entry \<Rightarrow> bool" where
  "week_mask current_date y e =
     (case date e of
        None \<Rightarrow> False
      | Some d \<Rightarrow>
          year d = y \<and>
          (iso_week d = iso_week current_date \<or>
           (month d = month current_date \<and>
            between (day d) (day current_date - 7) (day current_date + 7))))"

text \<open>
  The loop over the years, by recursion on the years still to come. The dictionary is
  kept as the list of its items in insertion order.
\<close>

fun history_loop ::
  "entry list \<Rightarrow> timestamp \<Rightarrow> int list \<Rightarrow> (int \<times> entry list) list \<Rightarrow> (int \<times> entry list) list"
where
  "history_loop df current_date [] history = history"
| "history_loop df current_date (y # ys) history =
     (let year_data = filter (week_mask current_date y) df
      in history_loop df current_date ys
           (if year_data \<noteq> [] then history @ [(y, year_data)] else history))"

text \<open>
  The first year of the loop is the least year of the date column. For a table without
  rows, or with a row without a date, that minimum is a float (\<open>nan\<close>, or the year as a
  float, since the year column then holds floats), which \<open>range\<close> refuses.
\<close>

definition min_year :: "entry list \<Rightarrow> py_error + int" where
  "min_year df =
     (if df = [] \<or> (\<exists>e \<in> set df. date e = None) then Inl TypeError
      else Inr (Min (set (map (\<lambda>e. year (the (date e))) df))))"

text \<open>The date the weeks are matched against: the argument, or today's date without one.\<close>

definition reference_date :: "timestamp \<Rightarrow> timestamp option \<Rightarrow> timestamp" where
  "reference_date now current_date_arg =
     (case current_date_arg of None \<Rightarrow> now | Some d \<Rightarrow> d)"

definition get_this_week_history ::
  "timestamp \<Rightarrow> entry list \<Rightarrow> timestamp option \<Rightarrow> py_error + (int \<times> entry list) list"
where
  "get_this_week_history now df current_date_arg =
     (let current_date = reference_date now current_date_arg
      in case min_year df of
           Inl err \<Rightarrow> Inl err
         | Inr first_year \<Rightarrow>
             Inr (history_loop df current_date [first_year..year current_date - 1] []))"

section \<open>Recurring event detector: \<open>find_recurring_events\<close>\<close>

definition in_month :: "int \<Rightarrow> entry \<Rightarrow> bool" where
  "in_month m e = (case date e of None \<Rightarrow> False | Some d \<Rightarrow> month d = m)"

text \<open>One row of the aggregated frame: the index (the title) and its three columns.\<close>

record event_group =
  group_title :: string
  group_count :: int
  first_category :: string
  first_body :: string

text \<open>
  \<open>groupby\<close> makes one group per distinct title and yields the groups in ascending order
  of the title (its \<open>sort\<close> option is on unless switched off). The aggregation counts the
  dates of a group, none of which is missing here, and takes the category and the body of
  its first row.
\<close>

definition aggregate :: "entry list \<Rightarrow> string \<Rightarrow> event_group" where
  "aggregate month_data t =
     (let rows = filter (\<lambda>e. title e = t) month_data
      in \<lparr>group_title = t, group_count = int (length rows),
          first_category = category (hd rows), first_body = body (hd rows)\<rparr>)"

definition groupby_title :: "entry list \<Rightarrow> event_group list" where
  "groupby_title month_data = map (aggregate month_data) (sort (remdups (map title month_data)))"

text \<open>
  \<open>sort_values\<close> on the count, descending, runs with the default sorting routine, which
  promises no order among rows of equal count. It is therefore a parameter of the model:
  some function that returns its rows rearranged, in descending order of the count.
\<close>

type_synonym sorter = "event_group list \<Rightarrow> event_group list"

definition sorts_descending :: "sorter \<Rightarrow> bool" where
  "sorts_descending sort_values =
     (\<forall>gs. mset (sort_values gs) = mset gs \<and>
           sorted_wrt (\<lambda>g h. group_count g \<ge> group_count h) (sort_values gs))"

definition find_recurring_events :: "sorter \<Rightarrow> entry list \<Rightarrow> int \<Rightarrow> event_group list" where
  "find_recurring_events sort_values df m =
     (let month_data = filter (in_month m) df
      in if month_data = [] then []
         else sort_values (filter (\<lambda>g. group_count g \<ge> 3) (groupby_title month_data)))"

subsection \<open>Vocabulary of the detector's properties\<close>

text \<open>The rows of month \<open>m\<close> with title \<open>t\<close>, in table order, and how many they are.\<close>

definition rows_of :: "entry list \<Rightarrow> int \<Rightarrow> string \<Rightarrow> entry list" where
  "rows_of df m t = filter (\<lambda>e. in_month m e \<and> title e = t) df"

definition occurrences :: "entry list \<Rightarrow> int \<Rightarrow> string \<Rightarrow> nat" where
  "occurrences df m t = length (rows_of df m t)"

text \<open>The position in the table of the first row of month \<open>m\<close> with title \<open>t\<close>.\<close>

definition first_occurrence :: "entry list \<Rightarrow> int \<Rightarrow> string \<Rightarrow> nat" where
  "first_occurrence df m t = length (takeWhile (\<lambda>e. \<not> (in_month m e \<and> title e = t)) df)"

text \<open>
  The order that claim C7 describes: of two groups with the same count, the one whose
  title occurs first in the table comes first.
\<close>

definition ties_keep_first_occurrence :: "entry list \<Rightarrow> int \<Rightarrow> event_group list \<Rightarrow> bool" where
  "ties_keep_first_occurrence df m gs =
     sorted_wrt (\<lambda>g h. group_count g \<noteq> group_count h \<or>
                  first_occurrence df m (group_title g) < first_occurrence df m (group_title h)) gs"

text \<open>One sorting routine of the kind described: insertion sort on the negated count.\<close>

definition insertion_sort_values :: sorter where
  "insertion_sort_values gs = sort_key (\<lambda>g. - group_count g) gs"

section \<open>Suggestion composer: \<open>suggest_next_month_ads\<close>\<close>

text \<open>
  The Python values handed to \<open>json.dumps\<close>: texts, integers, the timestamps of the date
  column (\<open>NaT\<close> for a missing one), lists, and dictionaries as the lists of their items.
\<close>

datatype pyobj =
    PyStr string
  | PyInt int
  | PyTimestamp timestamp
  | PyNaT
  | PyList "pyobj list"
  | PyDict "(string \<times> pyobj) list"

text \<open>
  \<open>json.dumps\<close> knows texts, numbers, lists and dictionaries. A timestamp is none of
  these, so the encoder raises \<open>TypeError\<close> when it meets one.
\<close>

fun serializable :: "pyobj \<Rightarrow> bool" where
  "serializable (PyStr s) = True"
| "serializable (PyInt i) = True"
| "serializable (PyTimestamp t) = False"
| "serializable PyNaT = False"
| "serializable (PyList xs) = list_all serializable xs"
| "serializable (PyDict kvs) = list_all (\<lambda>kv. serializable (snd kv)) kvs"

text \<open>
  The text that \<open>json.dumps\<close> writes for a value it can encode is a parameter, \<open>encode\<close>:
  nothing below depends on the layout of that text.
\<close>

definition json_dumps :: "(pyobj \<Rightarrow> string) \<Rightarrow> pyobj \<Rightarrow> py_error + string" where
  "json_dumps encode v = (if serializable v then Inr (encode v) else Inl TypeError)"

text \<open>The names of the columns, and of the count column after the renaming.\<close>

definition col_date :: string where
  "col_date = [CHR 0xEB, CHR 0x82, CHR 0xA0, CHR 0xEC, CHR 0xA7, CHR 0x9C]"

definition col_category :: string where
  "col_category = [CHR 0xEC, CHR 0xB9, CHR 0xB4, CHR 0xED, CHR 0x85, CHR 0x8C, CHR 0xEA, CHR 0xB3, CHR 0xA0, CHR 0xEB, CHR 0xA6, CHR 0xAC]"

definition col_title :: string where
  "col_title = [CHR 0xEC, CHR 0xA0, CHR 0x9C, CHR 0xEB, CHR 0xAA, CHR 0xA9]"

definition col_body :: string where
  "col_body = [CHR 0xEB, CHR 0x82, CHR 0xB4, CHR 0xEC, CHR 0x9A, CHR 0xA9]"

definition col_count :: string where
  "col_count = [CHR 0xED, CHR 0x9A, CHR 0x9F, CHR 0xEC, CHR 0x88, CHR 0x98]"

text \<open>\<open>to_dict('records')\<close> on the four selected columns: one dictionary per row.\<close>

definition record_of :: "entry \<Rightarrow> pyobj" where
  "record_of e =
     PyDict [(col_date, (case date e of None \<Rightarrow> PyNaT | Some d \<Rightarrow> PyTimestamp d)),
             (col_category, PyStr (category e)),
             (col_title, PyStr (title e)),
             (col_body, PyStr (body e))]"

text \<open>\<open>to_dict('index')\<close> on the aggregated frame: one item per group, keyed by its title.\<close>

definition index_item :: "event_group \<Rightarrow> string \<times> pyobj" where
  "index_item g =
     (group_title g,
      PyDict [(col_count, PyInt (group_count g)),
              (col_category, PyStr (first_category g)),
              (col_body, PyStr (first_body g))])"

definition past_events :: "entry list \<Rightarrow> int \<Rightarrow> pyobj list" where
  "past_events df target_month = map record_of (take 50 (filter (in_month target_month) df))"

definition recurring_events :: "sorter \<Rightarrow> entry list \<Rightarrow> int \<Rightarrow> (string \<times> pyobj) list" where
  "recurring_events sort_values df target_month =
     map index_item (take 20 (find_recurring_events sort_values df target_month))"

text \<open>\<open>str\<close> of an integer, as the formatted string writes the month.\<close>

function nat_digits :: "nat \<Rightarrow> string" where
  "nat_digits n =
     (if n < 10 then [char_of (48 + n)] else nat_digits (n div 10) @ [char_of (48 + n mod 10)])"
  by pat_completeness auto
termination
  by (relation "measure id") auto

definition str_int :: "int \<Rightarrow> string" where
  "str_int i = (if i < 0 then ''-'' @ nat_digits (nat (- i)) else nat_digits (nat i))"

text \<open>The fixed pieces of the prompt, between the values written into it.\<close>

definition prompt_text_0 :: string where
  "prompt_text_0 =
     [CHR 0xEB, CHR 0x8B, CHR 0xA4, CHR 0xEC, CHR 0x9D, CHR 0x8C, CHR 0xEC, CHR 0x9D, CHR 0x80]
     @ '' ''
     @ [CHR 0xEC, CHR 0x84, CHR 0xB1, CHR 0xEC, CHR 0x84, CHR 0x9C, CHR 0xEA, CHR 0xB5,
        CHR 0x90, CHR 0xED, CHR 0x9A, CHR 0x8C, CHR 0xEC, CHR 0x9D, CHR 0x98]
     @ '' ''
     @ [CHR 0xEA, CHR 0xB3, CHR 0xBC, CHR 0xEA, CHR 0xB1, CHR 0xB0]
     @ '' ''"

definition prompt_text_1 :: string where
  "prompt_text_1 =
     [CHR 0xEC, CHR 0x9B, CHR 0x94]
     @ '' ''
     @ [CHR 0xEC, CHR 0xA3, CHR 0xBC, CHR 0xEB, CHR 0xB3, CHR 0xB4]
     @ '' ''
     @ [CHR 0xEB, CHR 0x8D, CHR 0xB0, CHR 0xEC, CHR 0x9D, CHR 0xB4, CHR 0xED, CHR 0x84,
        CHR 0xB0, CHR 0xEC, CHR 0x9E, CHR 0x85, CHR 0xEB, CHR 0x8B, CHR 0x88, CHR 0xEB,
        CHR 0x8B, CHR 0xA4]
     @ ''.''
     @ [CHR 0x0A, CHR 0x0A]
     @ ''**''
     @ [CHR 0xEA, CHR 0xB3, CHR 0xBC, CHR 0xEA, CHR 0xB1, CHR 0xB0]
     @ '' ''"

definition prompt_text_2 :: string where
  "prompt_text_2 =
     [CHR 0xEC, CHR 0x9B, CHR 0x94]
     @ '' ''
     @ [CHR 0xEC, CHR 0xA3, CHR 0xBC, CHR 0xEC, CHR 0x9A, CHR 0x94]
     @ '' ''
     @ [CHR 0xEC, CHR 0x9D, CHR 0xB4, CHR 0xEB, CHR 0xB2, CHR 0xA4, CHR 0xED, CHR 0x8A,
        CHR 0xB8]
     @ '' (''
     @ [CHR 0xEC, CHR 0xB5, CHR 0x9C, CHR 0xEA, CHR 0xB7, CHR 0xBC]
     @ '' 50''
     @ [CHR 0xEA, CHR 0xB0, CHR 0x9C]
     @ ''):**''
     @ [CHR 0x0A]"

definition prompt_text_3 :: string where
  "prompt_text_3 =
     [CHR 0x0A, CHR 0x0A]
     @ ''**''"

definition prompt_text_4 :: string where
  "prompt_text_4 =
     [CHR 0xEC, CHR 0x9B, CHR 0x94, CHR 0xEC, CHR 0x97, CHR 0x90]
     @ '' 3''
     @ [CHR 0xEB, CHR 0x85, CHR 0x84]
     @ '' ''
     @ [CHR 0xEC, CHR 0x9D, CHR 0xB4, CHR 0xEC, CHR 0x83, CHR 0x81]
     @ '' ''
     @ [CHR 0xEB, CHR 0xB0, CHR 0x98, CHR 0xEB, CHR 0xB3, CHR 0xB5, CHR 0xEB, CHR 0x90,
        CHR 0x98, CHR 0xEB, CHR 0x8A, CHR 0x94]
     @ '' ''
     @ [CHR 0xEC, CHR 0x9D, CHR 0xB4, CHR 0xEB, CHR 0xB2, CHR 0xA4, CHR 0xED, CHR 0x8A,
        CHR 0xB8]
     @ '':**''
     @ [CHR 0x0A]"

definition prompt_text_5 :: string where
  "prompt_text_5 =
     [CHR 0x0A, CHR 0x0A, CHR 0xEC, CHR 0x9D, CHR 0xB4]
     @ '' ''
     @ [CHR 0xEB, CHR 0x8D, CHR 0xB0, CHR 0xEC, CHR 0x9D, CHR 0xB4, CHR 0xED, CHR 0x84,
        CHR 0xB0, CHR 0xEB, CHR 0xA5, CHR 0xBC]
     @ '' ''
     @ [CHR 0xEB, CHR 0xB0, CHR 0x94, CHR 0xED, CHR 0x83, CHR 0x95, CHR 0xEC, CHR 0x9C,
        CHR 0xBC, CHR 0xEB, CHR 0xA1, CHR 0x9C]
     @ '' ''
     @ [CHR 0xEC, CHR 0x98, CHR 0xAC, CHR 0xED, CHR 0x95, CHR 0xB4]
     @ '' ''"

definition prompt_text_6 :: string where
  "prompt_text_6 =
     [CHR 0xEC, CHR 0x9B, CHR 0x94, CHR 0xEC, CHR 0x97, CHR 0x90]
     @ '' ''
     @ [CHR 0xED, CHR 0x95, CHR 0x84, CHR 0xEC, CHR 0x9A, CHR 0x94, CHR 0xED, CHR 0x95,
        CHR 0x9C]
     @ '' ''
     @ [CHR 0xEC, CHR 0xA3, CHR 0xBC, CHR 0xEB, CHR 0xB3, CHR 0xB4]
     @ '' ''
     @ [CHR 0xEA, CHR 0xB4, CHR 0x91, CHR 0xEA, CHR 0xB3, CHR 0xA0, CHR 0xEB, CHR 0xA5,
        CHR 0xBC]
     @ '' ''
     @ [CHR 0xEC, CHR 0xB6, CHR 0x94, CHR 0xEC, CHR 0xB2, CHR 0x9C, CHR 0xED, CHR 0x95,
        CHR 0xB4, CHR 0xEC, CHR 0xA3, CHR 0xBC, CHR 0xEC, CHR 0x84, CHR 0xB8, CHR 0xEC,
        CHR 0x9A, CHR 0x94]
     @ ''.''
     @ [CHR 0x0A, CHR 0x0A, CHR 0xEB, CHR 0x8B, CHR 0xA4, CHR 0xEC, CHR 0x9D, CHR 0x8C]
     @ '' ''
     @ [CHR 0xED, CHR 0x98, CHR 0x95, CHR 0xEC, CHR 0x8B, CHR 0x9D, CHR 0xEC, CHR 0x9C,
        CHR 0xBC, CHR 0xEB, CHR 0xA1, CHR 0x9C]
     @ '' ''
     @ [CHR 0xEB, CHR 0x8B, CHR 0xB5, CHR 0xEB, CHR 0xB3, CHR 0x80, CHR 0xED, CHR 0x95,
        CHR 0xB4, CHR 0xEC, CHR 0xA3, CHR 0xBC, CHR 0xEC, CHR 0x84, CHR 0xB8, CHR 0xEC,
        CHR 0x9A, CHR 0x94]
     @ '':''
     @ [CHR 0x0A, CHR 0x0A]
     @ ''## ''"

definition prompt_text_7 :: string where
  "prompt_text_7 =
     [CHR 0xEC, CHR 0x9B, CHR 0x94]
     @ '' ''
     @ [CHR 0xED, CHR 0x95, CHR 0x84, CHR 0xEC, CHR 0x88, CHR 0x98]
     @ '' ''
     @ [CHR 0xEA, CHR 0xB4, CHR 0x91, CHR 0xEA, CHR 0xB3, CHR 0xA0]
     @ '' (''
     @ [CHR 0xEB, CHR 0xA7, CHR 0xA4, CHR 0xEB, CHR 0x85, CHR 0x84]
     @ '' ''
     @ [CHR 0xEB, CHR 0xB0, CHR 0x98, CHR 0xEB, CHR 0xB3, CHR 0xB5]
     @ '')''
     @ [CHR 0x0A]
     @ ''1. [''
     @ [CHR 0xEA, CHR 0xB4, CHR 0x91, CHR 0xEA, CHR 0xB3, CHR 0xA0, CHR 0xEB, CHR 0xAA,
        CHR 0x85]
     @ ''] - [''
     @ [CHR 0xEC, CHR 0xB6, CHR 0x94, CHR 0xEC, CHR 0xB2, CHR 0x9C]
     @ '' ''
     @ [CHR 0xEA, CHR 0xB2, CHR 0x8C, CHR 0xEC, CHR 0x9E, CHR 0xAC]
     @ '' ''
     @ [CHR 0xEC, CHR 0xA3, CHR 0xBC, CHR 0xEC, CHR 0xB0, CHR 0xA8]
     @ '']''
     @ [CHR 0x0A, CHR 0x0A]
     @ ''## ''"

definition prompt_text_8 :: string where
  "prompt_text_8 =
     [CHR 0xEC, CHR 0x9B, CHR 0x94]
     @ '' ''
     @ [CHR 0xEA, CHR 0xB6, CHR 0x8C, CHR 0xEC, CHR 0x9E, CHR 0xA5]
     @ '' ''
     @ [CHR 0xEA, CHR 0xB4, CHR 0x91, CHR 0xEA, CHR 0xB3, CHR 0xA0, CHR 0x0A]
     @ ''1. [''
     @ [CHR 0xEA, CHR 0xB4, CHR 0x91, CHR 0xEA, CHR 0xB3, CHR 0xA0, CHR 0xEB, CHR 0xAA,
        CHR 0x85]
     @ ''] - [''
     @ [CHR 0xEC, CHR 0xB6, CHR 0x94, CHR 0xEC, CHR 0xB2, CHR 0x9C]
     @ '' ''
     @ [CHR 0xEA, CHR 0xB2, CHR 0x8C, CHR 0xEC, CHR 0x9E, CHR 0xAC]
     @ '' ''
     @ [CHR 0xEC, CHR 0xA3, CHR 0xBC, CHR 0xEC, CHR 0xB0, CHR 0xA8]
     @ '']''
     @ [CHR 0x0A, CHR 0x0A]
     @ ''## ''
     @ [CHR 0xED, CHR 0x8A, CHR 0xB9, CHR 0xEB, CHR 0xB3, CHR 0x84]
     @ '' ''
     @ [CHR 0xEA, CHR 0xB3, CHR 0xA0, CHR 0xEB, CHR 0xA0, CHR 0xA4, CHR 0xEC, CHR 0x82,
        CHR 0xAC, CHR 0xED, CHR 0x95, CHR 0xAD, CHR 0x0A]
     @ ''- [''
     @ [CHR 0xEA, CHR 0xB5, CHR 0x90, CHR 0xED, CHR 0x9A, CHR 0x8C]
     @ '' ''
     @ [CHR 0xEC, CHR 0xA0, CHR 0x88, CHR 0xEA, CHR 0xB8, CHR 0xB0, CHR 0xEB, CHR 0x82,
        CHR 0x98]
     @ '' ''
     @ [CHR 0xED, CHR 0x8A, CHR 0xB9, CHR 0xEB, CHR 0xB3, CHR 0x84, CHR 0xED, CHR 0x95,
        CHR 0x9C]
     @ '' ''
     @ [CHR 0xEB, CHR 0x82, CHR 0xA0]
     @ '']''
     @ [CHR 0x0A]"

definition build_prompt :: "int \<Rightarrow> string \<Rightarrow> string \<Rightarrow> string" where
  "build_prompt target_month past_json recurring_json =
     prompt_text_0 @ str_int target_month @ prompt_text_1 @ str_int target_month @ prompt_text_2 @ past_json
     @ prompt_text_3 @ str_int target_month @ prompt_text_4 @ recurring_json
     @ prompt_text_5 @ str_int target_month @ prompt_text_6 @ str_int target_month @ prompt_text_7 @ str_int target_month @ prompt_text_8"

record generation_config =
  temperature :: rat
  max_output_tokens :: nat

definition suggestion_config :: generation_config where
  "suggestion_config = \<lparr>temperature = 3 / 10, max_output_tokens = 2000\<rparr>"

text \<open>
  The function. The formatted string is evaluated from left to right inside the
  function, outside any \<open>try\<close>: the entries are encoded first, then the groups, and an
  exception of either encoding leaves the function before the gateway is called.
\<close>

definition suggest_next_month_ads ::
  "sorter \<Rightarrow> (pyobj \<Rightarrow> string) \<Rightarrow> generation_config provider \<Rightarrow> entry list \<Rightarrow> int \<Rightarrow> session
     \<Rightarrow> py_error + (ret \<times> world)"
where
  "suggest_next_month_ads sort_values encode api df target_month s =
     (case json_dumps encode (PyList (past_events df target_month)) of
        Inl err \<Rightarrow> Inl err
      | Inr past_json \<Rightarrow>
          (case json_dumps encode (PyDict (recurring_events sort_values df target_month)) of
             Inl err \<Rightarrow> Inl err
           | Inr recurring_json \<Rightarrow>
               Inr (call_gemini_with_retry api
                      (build_prompt target_month past_json recurring_json)
                      suggestion_config s)))"

section \<open>Tables for the examples\<close>

definition row :: "int \<Rightarrow> int \<Rightarrow> int \<Rightarrow> string \<Rightarrow> string \<Rightarrow> string \<Rightarrow> entry" where
  "row y m d c t b =
     \<lparr>date = Some \<lparr>year = y, month = m, day = d\<rparr>, category = c, title = t, body = b,
        others = []\<rparr>"

definition november_fourth :: timestamp where
  "november_fourth = \<lparr>year = 2026, month = 11, day = 4\<rparr>"

definition bulletin_table :: "entry list" where
  "bulletin_table =
     [row 2024 11 9 ''worship'' ''Thanksgiving service'' ''Sunday 11am'',
      row 2023 10 30 ''notice'' ''Bazaar'' ''in the hall'',
      row 2022 5 5 ''family'' ''Youth picnic'' ''picnic'',
      row 2025 11 5 ''worship'' ''Thanksgiving service'' ''Sunday 11am'',
      row 2026 11 1 ''notice'' ''Choir practice'' ''Saturday'']"

definition this_year_table :: "entry list" where
  "this_year_table =
     [row 2026 11 1 ''notice'' ''Choir practice'' ''Saturday'',
      row 2026 3 8 ''notice'' ''Spring cleaning'' ''bring gloves'']"

definition cleaning_first_table :: "entry list" where
  "cleaning_first_table =
     [row 2021 3 7 ''notice'' ''Spring cleaning'' ''bring gloves'',
      row 2022 3 6 ''notice'' ''Spring cleaning'' ''bring gloves'',
      row 2023 3 5 ''notice'' ''Spring cleaning'' ''bring gloves'',
      row 2021 3 28 ''worship'' ''Easter service'' ''Sunday 11am'',
      row 2022 3 27 ''worship'' ''Easter service'' ''Sunday 11am'',
      row 2023 3 26 ''worship'' ''Easter service'' ''Sunday 11am'']"

definition easter_first_table :: "entry list" where
  "easter_first_table =
     [row 2021 3 28 ''worship'' ''Easter service'' ''Sunday 11am'',
      row 2022 3 27 ''worship'' ''Easter service'' ''Sunday 11am'',
      row 2023 3 26 ''worship'' ''Easter service'' ''Sunday 11am'',
      row 2021 3 7 ''notice'' ''Spring cleaning'' ''bring gloves'',
      row 2022 3 6 ''notice'' ''Spring cleaning'' ''bring gloves'',
      row 2023 3 5 ''notice'' ''Spring cleaning'' ''bring gloves'']"

definition march_table :: "entry list" where
  "march_table =
     [row 2020 2 9 ''other'' ''Spring cleaning'' ''indoors'',
      row 2021 3 7 ''notice'' ''Spring cleaning'' ''bring gloves'',
      row 2021 3 14 ''notice'' ''Bazaar'' ''in the hall'',
      row 2022 3 6 ''notice'' ''Spring cleaning'' ''bring a broom'',
      row 2022 4 3 ''notice'' ''Spring cleaning'' ''second round'',
      row 2023 3 5 ''family'' ''Spring cleaning'' ''bring gloves'',
      row 2024 3 3 ''notice'' ''Spring cleaning'' ''bring gloves'',
      row 2024 3 10 ''notice'' ''Bazaar'' ''in the hall'']"

definition easter_group :: event_group where
  "easter_group = \<lparr>group_title = ''Easter service'', group_count = 3,
        first_category = ''worship'', first_body = ''Sunday 11am''\<rparr>"

definition cleaning_group :: event_group where
  "cleaning_group = \<lparr>group_title = ''Spring cleaning'', group_count = 3,
        first_category = ''notice'', first_body = ''bring gloves''\<rparr>"

section \<open>Properties of the gateway\<close>

lemma cursor_after_Nil: "cursor_after s oc [] c = c" by (simp add: cursor_after_def)
lemma cursor_after_Cons:
  "cursor_after s oc (a # as) c =
     cursor_after s oc as (if request_returned (oc a) then Some (int (key_index s a)) else c)"
  by (simp add: cursor_after_def split: list.splits)

lemma retry_loop_trace:
  assumes "k < length (session_keys s)"
  shows "\<exists>m. k < m \<and> m \<le> length (session_keys s) \<and>
     calls (snd (retry_loop api p g (session_keys s) (session_model s) (session_start s) [k..<length (session_keys s)] w))
       = calls w @ map (key_index s) [k..<m] \<and>
     current_api_key_index (state (snd (retry_loop api p g (session_keys s) (session_model s) (session_start s) [k..<length (session_keys s)] w)))
       = cursor_after s (outcome_at api p g s) [k..<m] (current_api_key_index (state w))"
  using assms
proof (induction "length (session_keys s) - k" arbitrary: k w)
  case 0
  then show ?case by simp
next
  case (Suc d)
  let ?n = "length (session_keys s)"
  have up: "[k..<?n] = k # [Suc k..<?n]" using Suc.prems by (simp add: upt_conv_Cons)
  let ?idx = "key_index s k"
  let ?w1 = "w\<lparr>calls := calls w @ [?idx]\<rparr>"
  have stop: "\<exists>m. k < m \<and> m \<le> ?n \<and> calls (snd R) = calls w @ map (key_index s) [k..<m] \<and>
      current_api_key_index (state (snd R))
        = cursor_after s (outcome_at api p g s) [k..<m] (current_api_key_index (state w))"
    if "calls (snd R) = calls w @ [?idx]"
      and "current_api_key_index (state (snd R))
        = cursor_after s (outcome_at api p g s) [k..<Suc k] (current_api_key_index (state w))"
    for R :: "ret \<times> world"
    using Suc.prems that by (intro exI[of _ "Suc k"]) simp
  have unf: "retry_loop api p g (session_keys s) (session_model s) (session_start s) [k..<?n] w =
     (case try_body api p g (session_keys s ! ?idx) (session_model s) k ?idx ?w1 of
           Inr (t, w2) \<Rightarrow> (Generated t, w2)
         | Inl (error_msg, w2) \<Rightarrow>
             if is_quota_error error_msg then
               if int k < int ?n - 1 then
                 retry_loop api p g (session_keys s) (session_model s) (session_start s) [Suc k..<?n]
                   (show_warning ?idx w2)
               else (AllExhausted, w2)
             else (ErrorMsg error_msg, w2))"
    unfolding up key_index_def by (simp add: Let_def)
  have go: "\<exists>m. k < m \<and> m \<le> ?n \<and>
       calls (snd (retry_loop api p g (session_keys s) (session_model s) (session_start s) [Suc k..<?n] w'))
         = calls w @ map (key_index s) [k..<m] \<and>
       current_api_key_index (state (snd (retry_loop api p g (session_keys s) (session_model s) (session_start s) [Suc k..<?n] w')))
         = cursor_after s (outcome_at api p g s) [k..<m] (current_api_key_index (state w))"
    if more: "int k < int ?n - 1" and c: "calls w' = calls w @ [?idx]"
      and u: "current_api_key_index (state w') = cursor_after s (outcome_at api p g s) [k..<Suc k] (current_api_key_index (state w))"
    for w'
  proof -
    have lt: "Suc k < ?n" using more by simp
    have d: "d = ?n - Suc k" using Suc.hyps(2) by simp
    from Suc.hyps(1)[OF d lt, of w'] obtain m where m: "Suc k < m" "m \<le> ?n"
      "calls (snd (retry_loop api p g (session_keys s) (session_model s) (session_start s) [Suc k..<?n] w'))
         = calls w' @ map (key_index s) [Suc k..<m]"
      "current_api_key_index (state (snd (retry_loop api p g (session_keys s) (session_model s) (session_start s) [Suc k..<?n] w')))
         = cursor_after s (outcome_at api p g s) [Suc k..<m] (current_api_key_index (state w'))"
      by blast
    have upm: "[k..<m] = k # [Suc k..<m]" using m(1) by (simp add: upt_conv_Cons)
    show ?thesis using m c u
      by (intro exI[of _ m]) (simp add: upm cursor_after_Cons cursor_after_Nil)
  qed
  have oc: "api k (session_keys s ! ?idx) (session_model s) p g = outcome_at api p g s k"
    by (simp add: outcome_at_def)
  show ?case
  proof (cases "outcome_at api p g s k")
    case (Text t)
    show ?thesis unfolding unf
      by (rule stop) (simp_all add: try_body_def oc Text cursor_after_Cons cursor_after_Nil store_index_def show_info_def)
  next
    case (CallRaises e)
    show ?thesis
    proof (cases "is_quota_error e \<and> int k < int ?n - 1")
      case True
      have r: "retry_loop api p g (session_keys s) (session_model s) (session_start s) [k..<?n] w
          = retry_loop api p g (session_keys s) (session_model s) (session_start s) [Suc k..<?n] (show_warning ?idx ?w1)"
        unfolding unf using True by (simp add: try_body_def oc CallRaises)
      show ?thesis unfolding r using True
        by (intro go) (simp_all add: CallRaises show_warning_def cursor_after_Cons cursor_after_Nil)
    next
      case False
      show ?thesis unfolding unf using False
        by (intro stop) (auto simp add: try_body_def oc CallRaises cursor_after_Cons cursor_after_Nil)
    qed
  next
    case (TextRaises e)
    let ?w2 = "show_info k ?idx (store_index ?idx ?w1)"
    show ?thesis
    proof (cases "is_quota_error e \<and> int k < int ?n - 1")
      case True
      have r: "retry_loop api p g (session_keys s) (session_model s) (session_start s) [k..<?n] w
          = retry_loop api p g (session_keys s) (session_model s) (session_start s) [Suc k..<?n] (show_warning ?idx ?w2)"
        unfolding unf using True by (simp add: try_body_def oc TextRaises)
      show ?thesis unfolding r using True
        by (intro go) (simp_all add: TextRaises show_warning_def show_info_def store_index_def cursor_after_Cons cursor_after_Nil)
    next
      case False
      show ?thesis unfolding unf using False
        by (intro stop) (auto simp add: try_body_def oc TextRaises cursor_after_Cons cursor_after_Nil show_info_def store_index_def)
    qed
  qed
qed

lemma retry_loop_step:
  assumes "k < length (session_keys s)"
  shows "retry_loop api p g (session_keys s) (session_model s) (session_start s) [k..<length (session_keys s)] w =
     (case try_body api p g (session_keys s ! key_index s k) (session_model s) k (key_index s k)
             (w\<lparr>calls := calls w @ [key_index s k]\<rparr>) of
           Inr (t, w2) \<Rightarrow> (Generated t, w2)
         | Inl (error_msg, w2) \<Rightarrow>
             if is_quota_error error_msg then
               if int k < int (length (session_keys s)) - 1 then
                 retry_loop api p g (session_keys s) (session_model s) (session_start s)
                   [Suc k..<length (session_keys s)] (show_warning (key_index s k) w2)
               else (AllExhausted, w2)
             else (ErrorMsg error_msg, w2))"
proof -
  have up: "[k..<length (session_keys s)] = k # [Suc k..<length (session_keys s)]"
    using assms by (simp add: upt_conv_Cons)
  show ?thesis unfolding up key_index_def by (simp add: Let_def)
qed

lemma try_body_outcome:
  "try_body api p g (session_keys s ! key_index s k) (session_model s) k (key_index s k) w =
     (case outcome_at api p g s k of
        CallRaises e \<Rightarrow> Inl (e, w)
      | TextRaises e \<Rightarrow> Inl (e, show_info k (key_index s k) (store_index (key_index s k) w))
      | Text t \<Rightarrow> Inr (t, show_info k (key_index s k) (store_index (key_index s k) w)))"
  by (simp add: try_body_def outcome_at_def)

lemma calls_show_info [simp]: "calls (show_info a i w) = calls w"
  by (simp add: show_info_def)

lemma calls_show_warning [simp]: "calls (show_warning i w) = calls w"
  by (simp add: show_warning_def)

lemma calls_store_index [simp]: "calls (store_index i w) = calls w"
  by (simp add: store_index_def)

lemma retry_loop_not_fallback:
  "k < length (session_keys s) \<Longrightarrow>
   fst (retry_loop api p g (session_keys s) (session_model s) (session_start s) [k..<length (session_keys s)] w) \<noteq> Fallback"
proof (induction "length (session_keys s) - k" arbitrary: k w)
  case 0
  then show ?case by simp
next
  case (Suc d)
  have "Suc k < length (session_keys s) \<Longrightarrow>
     fst (retry_loop api p g (session_keys s) (session_model s) (session_start s) [Suc k..<length (session_keys s)] w') \<noteq> Fallback" for w'
    using Suc.hyps(1)[of "Suc k" w'] Suc.hyps(2) by simp
  then show ?case
    by (auto simp add: retry_loop_step[OF Suc.prems] try_body_outcome split: api_outcome.splits)
qed

lemma retry_loop_skip:
  assumes "quota_failure (outcome_at api p g s k)" and "Suc k < length (session_keys s)"
  shows "\<exists>w'. retry_loop api p g (session_keys s) (session_model s) (session_start s) [k..<length (session_keys s)] w
       = retry_loop api p g (session_keys s) (session_model s) (session_start s) [Suc k..<length (session_keys s)] w'
     \<and> calls w' = calls w @ [key_index s k]"
proof -
  have k: "k < length (session_keys s)" using assms(2) by simp
  show ?thesis using assms
    by (cases "outcome_at api p g s k")
       (auto simp add: retry_loop_step[OF k] try_body_outcome quota_failure_def)
qed

lemma retry_loop_skip_many:
  assumes "\<forall>a. k \<le> a \<and> a < j \<longrightarrow> quota_failure (outcome_at api p g s a)"
    and "k \<le> j" and "j < length (session_keys s)"
  shows "\<exists>w'. retry_loop api p g (session_keys s) (session_model s) (session_start s) [k..<length (session_keys s)] w
       = retry_loop api p g (session_keys s) (session_model s) (session_start s) [j..<length (session_keys s)] w'
     \<and> calls w' = calls w @ map (key_index s) [k..<j]"
  using assms(2,1,3)
proof (induction j rule: dec_induct)
  case base
  show ?case by (rule exI[of _ w]) simp
next
  case (step i)
  from step obtain w' where w': "retry_loop api p g (session_keys s) (session_model s) (session_start s) [k..<length (session_keys s)] w
       = retry_loop api p g (session_keys s) (session_model s) (session_start s) [i..<length (session_keys s)] w'"
     "calls w' = calls w @ map (key_index s) [k..<i]"
    by force
  have "quota_failure (outcome_at api p g s i)" using step by simp
  from retry_loop_skip[OF this step.prems(2), of w'] w' step.hyps(1)
  show ?case by auto
qed

lemma retry_loop_all_quota:
  assumes "\<forall>a < length (session_keys s). quota_failure (outcome_at api p g s a)"
    and "session_keys s \<noteq> []"
  shows "fst (retry_loop api p g (session_keys s) (session_model s) (session_start s) [0..<length (session_keys s)] w) = AllExhausted
     \<and> calls (snd (retry_loop api p g (session_keys s) (session_model s) (session_start s) [0..<length (session_keys s)] w))
        = calls w @ map (key_index s) [0..<length (session_keys s)]"
proof -
  let ?n = "length (session_keys s)"
  obtain m where m: "?n = Suc m" using assms(2) by (cases "session_keys s") auto
  have n: "m < ?n" using m by simp
  have q: "\<forall>a. 0 \<le> a \<and> a < m \<longrightarrow> quota_failure (outcome_at api p g s a)"
    using assms(1) m by simp
  from retry_loop_skip_many[OF q _ n, of w] obtain w' where
    w': "retry_loop api p g (session_keys s) (session_model s) (session_start s) [0..<?n] w
       = retry_loop api p g (session_keys s) (session_model s) (session_start s) [m..<?n] w'"
     "calls w' = calls w @ map (key_index s) [0..<m]"
    by auto
  have last: "quota_failure (outcome_at api p g s m)" using assms(1) n by blast
  have nm: "\<not> int m < int ?n - 1" using m by simp
  have up: "map (key_index s) [0..<?n] = map (key_index s) [0..<m] @ [key_index s m]"
    unfolding m by simp
  show ?thesis unfolding w'(1) up using last w'(2) nm
    by (cases "outcome_at api p g s m")
       (simp_all add: retry_loop_step[OF n] try_body_outcome quota_failure_def)
qed

lemma retry_loop_other_error:
  assumes "\<forall>a < j. quota_failure (outcome_at api p g s a)"
    and "j < length (session_keys s)"
    and "raised (outcome_at api p g s j) = Some e" and "\<not> is_quota_error e"
  shows "fst (retry_loop api p g (session_keys s) (session_model s) (session_start s) [0..<length (session_keys s)] w) = ErrorMsg e
     \<and> calls (snd (retry_loop api p g (session_keys s) (session_model s) (session_start s) [0..<length (session_keys s)] w))
        = calls w @ map (key_index s) [0..<Suc j]"
proof -
  let ?n = "length (session_keys s)"
  have q: "\<forall>a. 0 \<le> a \<and> a < j \<longrightarrow> quota_failure (outcome_at api p g s a)"
    using assms(1) by simp
  from retry_loop_skip_many[OF q _ assms(2), of w] obtain w' where
    w': "retry_loop api p g (session_keys s) (session_model s) (session_start s) [0..<?n] w
       = retry_loop api p g (session_keys s) (session_model s) (session_start s) [j..<?n] w'"
     "calls w' = calls w @ map (key_index s) [0..<j]"
    by auto
  show ?thesis unfolding w'(1) using assms(3,4) w'(2)
    by (cases "outcome_at api p g s j")
       (auto simp add: retry_loop_step[OF assms(2)] try_body_outcome)
qed

text \<open>
  Claim C10. The statement after the loop, which returns the generic failure text, is
  reached exactly when the credential list read from the session state is empty. With a
  credential in the list, the function returns from inside the loop: the generated text,
  the all-exhausted message or a message around the raw error text.
\<close>

theorem fallback_iff_no_credentials:
  "(fst (call_gemini_with_retry api prompt g s) = Fallback) = (session_keys s = [])"
proof (cases "session_keys s = []")
  case True
  then show ?thesis by (simp add: call_gemini_with_retry_def)
next
  case False
  then have "0 < length (session_keys s)" by simp
  from retry_loop_not_fallback[OF this] False show ?thesis
    by (simp add: call_gemini_with_retry_def Let_def)
qed

text \<open>
  The attempts of one invocation, in general. With \<open>n > 0\<close> credentials it makes \<open>m\<close>
  attempts with \<open>1 \<le> m \<le> n\<close>, and attempt \<open>a\<close> uses the credential at
  \<open>(start + a) mod n\<close>. The cursor afterwards is the position of the last attempt whose
  generation request returned a response, and the cursor the invocation started with when
  no request returned one.
\<close>

lemma rotation_trace:
  assumes "session_keys s \<noteq> []"
  shows "\<exists>m. 0 < m \<and> m \<le> length (session_keys s) \<and>
     calls (snd (call_gemini_with_retry api prompt g s)) = map (key_index s) [0..<m] \<and>
     length (calls (snd (call_gemini_with_retry api prompt g s))) \<le> length (session_keys s) \<and>
     current_api_key_index (state (snd (call_gemini_with_retry api prompt g s)))
       = cursor_after s (outcome_at api prompt g s) [0..<m] (current_api_key_index s)"
proof -
  have "0 < length (session_keys s)" using assms by simp
  from retry_loop_trace[OF this, of api prompt g "\<lparr>state = s, calls = [], notices = []\<rparr>"]
  obtain m where "0 < m" "m \<le> length (session_keys s)"
    "calls (snd (call_gemini_with_retry api prompt g s)) = map (key_index s) [0..<m]"
    "current_api_key_index (state (snd (call_gemini_with_retry api prompt g s)))
       = cursor_after s (outcome_at api prompt g s) [0..<m] (current_api_key_index s)"
    by (auto simp add: call_gemini_with_retry_def Let_def)
  then show ?thesis by (intro exI[of _ m]) simp
qed

text \<open>
  Claim C1 says that the cursor is stored only when an attempt succeeds and never holds
  the position of a failed attempt. The code stores it as soon as the generation request
  returns, under the comment that this is the success, and reads the text of the response
  afterwards, still inside the \<open>try\<close>. Here the first credential's request raises a quota
  error and the second credential's request returns a response whose text cannot be read:
  both attempts end in the handler, the function returns the all-exhausted message, and
  the cursor has moved from 0 to 1, the position of an attempt that failed.
\<close>

theorem cursor_moved_by_failed_attempt:
  "call_gemini_with_retry blocked_provider ''hello'' () two_key_session =
     (AllExhausted,
      \<lparr>state = two_key_session\<lparr>current_api_key_index := Some 1\<rparr>,
         calls = [0, 1], notices = [Warning 1, Info 2]\<rparr>) \<and>
   current_api_key_index two_key_session = Some 0 \<and>
   raised (outcome_at blocked_provider ''hello'' () two_key_session 0) = Some ''429 Quota exceeded'' \<and>
   raised (outcome_at blocked_provider ''hello'' () two_key_session 1) = Some ''rate limit hit''"
  by code_simp

lemma rotating_run:
  "call_gemini_with_retry rotating_provider ''hello'' () rotating_session =
     (Generated ''reply to hello'',
      \<lparr>state = rotating_session\<lparr>current_api_key_index := Some 0\<rparr>,
         calls = [2, 0], notices = [Warning 3, Info 1]\<rparr>)"
  by code_simp

text \<open>
  Claim C4. When every attempt of an invocation ends in an exception whose message
  mentions quota or limit, the function returns the fixed all-exhausted message after
  exactly one attempt per credential. With the three credentials \<open>[A, B, C]\<close> and the
  cursor at 0 these are the attempts 0, 1, 2, as the witness shows. The handler catches
  every exception of the \<open>try\<close> block, so the result is an ordinary return value.
\<close>

theorem all_credentials_exhausted:
  assumes "session_keys s \<noteq> []"
    and "\<forall>a < length (session_keys s). quota_failure (outcome_at api prompt g s a)"
  shows "fst (call_gemini_with_retry api prompt g s) = AllExhausted \<and>
     render (fst (call_gemini_with_retry api prompt g s)) = msg_all_exhausted \<and>
     calls (snd (call_gemini_with_retry api prompt g s)) = map (key_index s) [0..<length (session_keys s)] \<and>
     length (calls (snd (call_gemini_with_retry api prompt g s))) = length (session_keys s)"
  using retry_loop_all_quota[OF assms(2,1), of "\<lparr>state = s, calls = [], notices = []\<rparr>"]
  by (simp add: call_gemini_with_retry_def Let_def)

lemma exhausted_message: "is_quota_error ''429 Resource exhausted: rate LIMIT reached''"
  by code_simp

theorem all_credentials_exhausted_witness:
  "session_keys three_key_session = [''key-A'', ''key-B'', ''key-C''] \<and>
   session_start three_key_session = 0 \<and>
   quota_failure (outcome_at exhausted_provider ''hello'' () three_key_session 0) \<and>
   quota_failure (outcome_at exhausted_provider ''hello'' () three_key_session 1) \<and>
   quota_failure (outcome_at exhausted_provider ''hello'' () three_key_session 2) \<and>
   fst (call_gemini_with_retry exhausted_provider ''hello'' () three_key_session) = AllExhausted \<and>
   calls (snd (call_gemini_with_retry exhausted_provider ''hello'' () three_key_session)) = [0, 1, 2]"
proof -
  have k: "session_keys three_key_session = [''key-A'', ''key-B'', ''key-C'']"
    by (simp add: three_key_session_def session_keys_def)
  have st: "session_start three_key_session = 0"
    by (simp add: three_key_session_def session_start_def)
  have h1: "session_keys three_key_session \<noteq> []" using k by simp
  have h2: "\<forall>a < length (session_keys three_key_session).
      quota_failure (outcome_at exhausted_provider ''hello'' () three_key_session a)"
    by (simp add: outcome_at_def exhausted_provider_def quota_failure_def exhausted_message)
  have ix: "map (key_index three_key_session) [0..<length (session_keys three_key_session)] = [0, 1, 2]"
    by (simp add: key_index_def k st upt_rec)
  have q: "quota_failure (outcome_at exhausted_provider ''hello'' () three_key_session a)" for a
    by (simp add: outcome_at_def exhausted_provider_def quota_failure_def exhausted_message)
  from all_credentials_exhausted[OF h1 h2] k st q ix show ?thesis by simp
qed

text \<open>
  Claim C5. The first attempt that ends in an exception whose message, in lower case,
  contains neither \<open>quota\<close> nor \<open>limit\<close> ends the invocation: the function returns
  the error prefix followed by the raw message, and the attempts made are those up to
  this one. With \<open>[A, B]\<close>, the cursor at 0 and such an error from \<open>A\<close>, the only
  attempt is the one with \<open>A\<close>, as the witness shows.
\<close>

theorem other_error_stops_rotation:
  assumes "j < length (session_keys s)"
    and "\<forall>a < j. quota_failure (outcome_at api prompt g s a)"
    and "raised (outcome_at api prompt g s j) = Some e"
    and "\<not> is_quota_error e"
  shows "fst (call_gemini_with_retry api prompt g s) = ErrorMsg e \<and>
     render (fst (call_gemini_with_retry api prompt g s)) = msg_error_prefix @ e \<and>
     calls (snd (call_gemini_with_retry api prompt g s)) = map (key_index s) [0..<Suc j]"
  using retry_loop_other_error[OF assms(2,1,3,4), of "\<lparr>state = s, calls = [], notices = []\<rparr>"]
  by (simp add: call_gemini_with_retry_def Let_def)

lemma broken_message: "\<not> is_quota_error ''API key not valid''"
  by code_simp

theorem other_error_stops_rotation_witness:
  "session_keys two_key_session = [''key-A'', ''key-B''] \<and>
   session_start two_key_session = 0 \<and>
   raised (outcome_at broken_provider ''hello'' () two_key_session 0) = Some ''API key not valid'' \<and>
   \<not> is_quota_error ''API key not valid'' \<and>
   fst (call_gemini_with_retry broken_provider ''hello'' () two_key_session) = ErrorMsg ''API key not valid'' \<and>
   render (fst (call_gemini_with_retry broken_provider ''hello'' () two_key_session))
     = msg_error_prefix @ ''API key not valid'' \<and>
   calls (snd (call_gemini_with_retry broken_provider ''hello'' () two_key_session)) = [0]"
proof -
  have h1: "0 < length (session_keys two_key_session)"
    by (simp add: two_key_session_def session_keys_def)
  have h2: "\<forall>a < (0::nat). quota_failure (outcome_at broken_provider ''hello'' () two_key_session a)"
    by simp
  have h3: "raised (outcome_at broken_provider ''hello'' () two_key_session 0) = Some ''API key not valid''"
    by (simp add: outcome_at_def broken_provider_def two_key_session_def session_keys_def
        session_start_def key_index_def)
  have ix: "map (key_index two_key_session) [0..<Suc 0] = [0]"
    by (simp add: key_index_def two_key_session_def session_keys_def session_start_def)
  have k: "session_keys two_key_session = [''key-A'', ''key-B'']"
    by (simp add: two_key_session_def session_keys_def)
  have st: "session_start two_key_session = 0"
    by (simp add: two_key_session_def session_start_def)
  from other_error_stops_rotation[OF h1 h2 h3 broken_message] k st h3 broken_message ix
  show ?thesis by simp
qed

text \<open>
  Claim C6, as stated, fails: with no credential in the session state the function
  raises nothing. It runs the loop zero times and returns, as an ordinary result, the
  generic failure text of the statement after the loop, even for a provider that would
  answer every request.
\<close>

theorem empty_credentials_counterexample:
  "call_gemini_with_retry willing_provider ''hello'' () unconfigured_session
     = (Fallback, \<lparr>state = unconfigured_session, calls = [], notices = []\<rparr>) \<and>
   render Fallback = msg_call_failed"
  by (simp add: call_gemini_with_retry_def session_keys_def unconfigured_session_def)

text \<open>
  Claim C6, amended. With an empty credential list the function makes no attempt, shows
  no notice, leaves the session state as it was and returns the generic failure text.
\<close>

theorem empty_credentials_fallback:
  "session_keys s = [] \<Longrightarrow>
   call_gemini_with_retry api prompt g s = (Fallback, \<lparr>state = s, calls = [], notices = []\<rparr>)"
  by (simp add: call_gemini_with_retry_def)

theorem empty_credentials_fallback_witness:
  "session_keys unconfigured_session = [] \<and>
   call_gemini_with_retry willing_provider ''hello'' () unconfigured_session
     = (Fallback, \<lparr>state = unconfigured_session, calls = [], notices = []\<rparr>)"
proof -
  have h: "session_keys unconfigured_session = []"
    by (simp add: unconfigured_session_def session_keys_def)
  show ?thesis by (rule conjI[OF h empty_credentials_fallback[OF h]])
qed

section \<open>Properties of the historical week matcher\<close>

lemma history_loop_eq:
  "history_loop df cd ys h =
     h @ filter (\<lambda>(y, es). es \<noteq> []) (map (\<lambda>y. (y, filter (week_mask cd y) df)) ys)"
  by (induction ys arbitrary: h) (simp_all add: Let_def)

lemma history_loop_member:
  "(Y, es) \<in> set (history_loop df cd ys []) \<longleftrightarrow>
     Y \<in> set ys \<and> es = filter (week_mask cd Y) df \<and> es \<noteq> []"
  by (auto simp add: history_loop_eq)

lemma get_this_week_history_member:
  assumes "get_this_week_history now df arg = Inr history"
  shows "\<exists>first_year. min_year df = Inr first_year \<and>
     (\<forall>Y es. ((Y, es) \<in> set history) =
        (first_year \<le> Y \<and> Y < year (reference_date now arg) \<and>
         es = filter (week_mask (reference_date now arg) Y) df \<and> es \<noteq> []))"
proof -
  from assms obtain first_year where f: "min_year df = Inr first_year" and
    h: "history = history_loop df (reference_date now arg) [first_year..year (reference_date now arg) - 1] []"
    by (auto simp add: get_this_week_history_def Let_def split: sum.splits)
  show ?thesis unfolding h history_loop_member using f by auto
qed

text \<open>
  Claim C2. Every entry stored under a key \<open>Y\<close> of the result is a row of the table
  whose date lies in the year \<open>Y\<close>, with \<open>Y\<close> below the year of the reference date, and
  whose ISO week is that of the reference date or whose month is that of the reference
  date with its day between the reference day minus 7 and plus 7, both included. The two
  bounds are used as computed, also below 1 or above 31.
\<close>

theorem history_entries_match:
  assumes "get_this_week_history now df arg = Inr history"
    and "(Y, es) \<in> set history" and "e \<in> set es"
  shows "e \<in> set df \<and>
    (\<exists>d. date e = Some d \<and> year d = Y \<and> Y < year (reference_date now arg) \<and>
     (iso_week d = iso_week (reference_date now arg) \<or>
      (month d = month (reference_date now arg) \<and>
       day (reference_date now arg) - 7 \<le> day d \<and> day d \<le> day (reference_date now arg) + 7)))"
proof -
  from get_this_week_history_member[OF assms(1)] assms(2)
  have lt: "Y < year (reference_date now arg)"
    and es: "es = filter (week_mask (reference_date now arg) Y) df" by auto
  from assms(3) es have "week_mask (reference_date now arg) Y e" and "e \<in> set df" by simp_all
  with lt show ?thesis
    by (auto simp add: week_mask_def between_def split: option.splits)
qed

lemma min_year_single:
  assumes "df \<noteq> []" and "\<forall>e \<in> set df. \<exists>d. date e = Some d \<and> year d = y"
  shows "min_year df = Inr y"
proof -
  have none: "\<not> (\<exists>e \<in> set df. date e = None)" using assms(2) by auto
  have "set (map (\<lambda>e. year (the (date e))) df) = {y}"
    using assms by (cases df) auto
  then show ?thesis using assms(1) none by (simp add: min_year_def)
qed

text \<open>
  Claim C8. A sequence stored in the result is never empty: it holds exactly the rows
  that qualify for its year, in table order, and a year from the first year of the table
  up to the year before the reference date is a key exactly when some row qualifies for
  it. A table whose rows all lie in the year of the reference date gives the empty
  result.
\<close>

theorem history_omits_empty_years:
  "(get_this_week_history now df arg = Inr history \<and> (Y, es) \<in> set history \<longrightarrow>
      es \<noteq> [] \<and> es = filter (week_mask (reference_date now arg) Y) df) \<and>
   (get_this_week_history now df arg = Inr history \<and> min_year df = Inr first_year \<and>
    first_year \<le> Y \<and> Y < year (reference_date now arg) \<longrightarrow>
      (Y \<in> fst ` set history) = (filter (week_mask (reference_date now arg) Y) df \<noteq> [])) \<and>
   (df \<noteq> [] \<and> (\<forall>e \<in> set df. \<exists>d. date e = Some d \<and> year d = year (reference_date now arg)) \<longrightarrow>
      get_this_week_history now df arg = Inr [])"
proof (intro conjI impI)
  assume a: "get_this_week_history now df arg = Inr history \<and> (Y, es) \<in> set history"
  then have g: "get_this_week_history now df arg = Inr history" and m: "(Y, es) \<in> set history"
    by simp_all
  from get_this_week_history_member[OF g] m
  show "es \<noteq> []" and "es = filter (week_mask (reference_date now arg) Y) df" by auto
next
  assume a: "get_this_week_history now df arg = Inr history \<and> min_year df = Inr first_year \<and>
    first_year \<le> Y \<and> Y < year (reference_date now arg)"
  then have g: "get_this_week_history now df arg = Inr history" by simp
  from get_this_week_history_member[OF g] a
  have "\<forall>es. ((Y, es) \<in> set history) =
        (es = filter (week_mask (reference_date now arg) Y) df \<and> es \<noteq> [])"
    by auto
  then show "(Y \<in> fst ` set history) = (filter (week_mask (reference_date now arg) Y) df \<noteq> [])"
    by (force simp add: image_iff)
next
  assume a: "df \<noteq> [] \<and> (\<forall>e \<in> set df. \<exists>d. date e = Some d \<and> year d = year (reference_date now arg))"
  then have "min_year df = Inr (year (reference_date now arg))" by (intro min_year_single) simp_all
  then show "get_this_week_history now df arg = Inr []"
    by (simp add: get_this_week_history_def Let_def)
qed

lemma bulletin_history:
  "get_this_week_history november_fourth bulletin_table None =
     Inr [(2024, [row 2024 11 9 ''worship'' ''Thanksgiving service'' ''Sunday 11am'']),
          (2025, [row 2025 11 5 ''worship'' ''Thanksgiving service'' ''Sunday 11am''])]"
  by code_simp

theorem history_entries_match_witness:
  "get_this_week_history november_fourth bulletin_table None =
     Inr [(2024, [row 2024 11 9 ''worship'' ''Thanksgiving service'' ''Sunday 11am'']),
          (2025, [row 2025 11 5 ''worship'' ''Thanksgiving service'' ''Sunday 11am''])] \<and>
   row 2025 11 5 ''worship'' ''Thanksgiving service'' ''Sunday 11am'' \<in> set bulletin_table \<and>
   (\<exists>d. date (row 2025 11 5 ''worship'' ''Thanksgiving service'' ''Sunday 11am'') = Some d \<and>
      year d = 2025 \<and> 2025 < year (reference_date november_fourth None) \<and>
     (iso_week d = iso_week (reference_date november_fourth None) \<or>
      (month d = month (reference_date november_fourth None) \<and>
       day (reference_date november_fourth None) - 7 \<le> day d \<and>
       day d \<le> day (reference_date november_fourth None) + 7)))"
proof -
  have m: "(2025, [row 2025 11 5 ''worship'' ''Thanksgiving service'' ''Sunday 11am''])
      \<in> set [(2024, [row 2024 11 9 ''worship'' ''Thanksgiving service'' ''Sunday 11am'']),
          (2025, [row 2025 11 5 ''worship'' ''Thanksgiving service'' ''Sunday 11am''])]"
    by simp
  have e: "row 2025 11 5 ''worship'' ''Thanksgiving service'' ''Sunday 11am''
      \<in> set [row 2025 11 5 ''worship'' ''Thanksgiving service'' ''Sunday 11am'']"
    by simp
  show ?thesis
    by (rule conjI[OF bulletin_history history_entries_match[OF bulletin_history m e]])
qed

lemma this_year_only:
  "this_year_table \<noteq> [] \<and>
   (\<forall>e \<in> set this_year_table. \<exists>d. date e = Some d \<and> year d = year (reference_date november_fourth None))"
  by (simp add: this_year_table_def row_def reference_date_def november_fourth_def)

theorem history_omits_empty_years_witness:
  "get_this_week_history november_fourth bulletin_table None =
     Inr [(2024, [row 2024 11 9 ''worship'' ''Thanksgiving service'' ''Sunday 11am'']),
          (2025, [row 2025 11 5 ''worship'' ''Thanksgiving service'' ''Sunday 11am''])] \<and>
   [row 2024 11 9 ''worship'' ''Thanksgiving service'' ''Sunday 11am''] \<noteq> [] \<and>
   [row 2024 11 9 ''worship'' ''Thanksgiving service'' ''Sunday 11am'']
     = filter (week_mask (reference_date november_fourth None) 2024) bulletin_table \<and>
   min_year bulletin_table = Inr 2022 \<and>
   filter (week_mask (reference_date november_fourth None) 2023) bulletin_table = [] \<and>
   (2023::int) \<notin> fst ` set [(2024, [row 2024 11 9 ''worship'' ''Thanksgiving service'' ''Sunday 11am'']),
          (2025, [row 2025 11 5 ''worship'' ''Thanksgiving service'' ''Sunday 11am''])] \<and>
   this_year_table \<noteq> [] \<and>
   get_this_week_history november_fourth this_year_table None = Inr []"
proof -
  have m: "(2024, [row 2024 11 9 ''worship'' ''Thanksgiving service'' ''Sunday 11am''])
      \<in> set [(2024, [row 2024 11 9 ''worship'' ''Thanksgiving service'' ''Sunday 11am'']),
          (2025, [row 2025 11 5 ''worship'' ''Thanksgiving service'' ''Sunday 11am''])]"
    by simp
  from history_omits_empty_years[of november_fourth bulletin_table None _ 2024
      "[row 2024 11 9 ''worship'' ''Thanksgiving service'' ''Sunday 11am'']"] bulletin_history m
  have 1: "[row 2024 11 9 ''worship'' ''Thanksgiving service'' ''Sunday 11am''] \<noteq> [] \<and>
   [row 2024 11 9 ''worship'' ''Thanksgiving service'' ''Sunday 11am'']
     = filter (week_mask (reference_date november_fourth None) 2024) bulletin_table"
    by blast
  from history_omits_empty_years[of november_fourth this_year_table None] this_year_only
  have 2: "get_this_week_history november_fourth this_year_table None = Inr []"
    by blast
  have my: "min_year bulletin_table = Inr 2022" by code_simp
  have yr: "(2022::int) \<le> 2023 \<and> 2023 < year (reference_date november_fourth None)"
    by (simp add: reference_date_def november_fourth_def)
  have none: "filter (week_mask (reference_date november_fourth None) 2023) bulletin_table = []"
    by code_simp
  from history_omits_empty_years[of november_fourth bulletin_table None _ 2023 _ 2022]
    bulletin_history my yr none
  have 3: "(2023::int) \<notin> fst ` set [(2024, [row 2024 11 9 ''worship'' ''Thanksgiving service'' ''Sunday 11am'']),
          (2025, [row 2025 11 5 ''worship'' ''Thanksgiving service'' ''Sunday 11am''])]"
    by blast
  from bulletin_history 1 2 3 my none this_year_only show ?thesis by blast
qed

section \<open>Properties of the recurring event detector\<close>

lemma insertion_sort_values_sorts: "sorts_descending insertion_sort_values"
  unfolding sorts_descending_def insertion_sort_values_def
proof (intro allI conjI)
  fix gs :: "event_group list"
  show "mset (sort_key (\<lambda>g. - group_count g) gs) = mset gs" by simp
  have "sorted (map (\<lambda>g. - group_count g) (sort_key (\<lambda>g. - group_count g) gs))"
    by (rule sorted_sort_key)
  then show "sorted_wrt (\<lambda>g h. group_count h \<le> group_count g) (sort_key (\<lambda>g. - group_count g) gs)"
    by (simp add: sorted_map)
qed

lemma rows_of_month_data:
  "filter (\<lambda>e. title e = t) (filter (in_month m) df) = rows_of df m t"
  by (simp add: rows_of_def)

lemma title_in_month_data:
  "t \<in> title ` set (filter (in_month m) df) \<longleftrightarrow> rows_of df m t \<noteq> []"
  by (auto simp add: rows_of_def filter_empty_conv)

lemma aggregate_month_data:
  "aggregate (filter (in_month m) df) t =
     \<lparr>group_title = t, group_count = int (occurrences df m t),
        first_category = category (hd (rows_of df m t)), first_body = body (hd (rows_of df m t))\<rparr>"
  by (simp only: aggregate_def rows_of_month_data occurrences_def Let_def)

lemma group_title_aggregate [simp]: "group_title (aggregate md t) = t"
  by (simp add: aggregate_def Let_def)

lemma group_count_aggregate:
  "group_count (aggregate (filter (in_month m) df) t) = int (occurrences df m t)"
  by (simp add: aggregate_month_data)

lemma first_category_aggregate:
  "first_category (aggregate (filter (in_month m) df) t) = category (hd (rows_of df m t))"
  by (simp add: aggregate_month_data)

lemma first_body_aggregate:
  "first_body (aggregate (filter (in_month m) df) t) = body (hd (rows_of df m t))"
  by (simp add: aggregate_month_data)

lemma titles_groupby:
  "map group_title (groupby_title md) = sort (remdups (map title md))"
  by (simp add: groupby_title_def comp_def)

lemma kept_groups:
  "g \<in> set (filter (\<lambda>g. group_count g \<ge> 3) (groupby_title (filter (in_month m) df))) \<longleftrightarrow>
     3 \<le> occurrences df m (group_title g) \<and> g = aggregate (filter (in_month m) df) (group_title g)"
proof -
  have nonempty: "rows_of df m t \<noteq> []" if "3 \<le> occurrences df m t" for t
    using that by (auto simp add: occurrences_def)
  show ?thesis
  proof
    assume "g \<in> set (filter (\<lambda>g. group_count g \<ge> 3) (groupby_title (filter (in_month m) df)))"
    then obtain t where t: "g = aggregate (filter (in_month m) df) t" and c: "3 \<le> group_count g"
      by (auto simp add: groupby_title_def)
    from t have gt: "group_title g = t" by simp
    from c t have "3 \<le> occurrences df m t" by (simp add: group_count_aggregate)
    with t gt show "3 \<le> occurrences df m (group_title g) \<and>
        g = aggregate (filter (in_month m) df) (group_title g)" by simp
  next
    assume a: "3 \<le> occurrences df m (group_title g) \<and>
        g = aggregate (filter (in_month m) df) (group_title g)"
    define t where "t = group_title g"
    from a have occ: "3 \<le> occurrences df m t" and eq: "g = aggregate (filter (in_month m) df) t"
      by (simp_all add: t_def)
    from occ have "rows_of df m t \<noteq> []" by (rule nonempty)
    then have "t \<in> title ` set (filter (in_month m) df)"
      by (rule iffD2[OF title_in_month_data])
    then have "aggregate (filter (in_month m) df) t \<in> set (groupby_title (filter (in_month m) df))"
      by (simp add: groupby_title_def)
    moreover have "3 \<le> group_count (aggregate (filter (in_month m) df) t)"
      using occ by (simp add: group_count_aggregate)
    ultimately have "aggregate (filter (in_month m) df) t
        \<in> set (filter (\<lambda>g. group_count g \<ge> 3) (groupby_title (filter (in_month m) df)))"
      by simp
    then show "g \<in> set (filter (\<lambda>g. group_count g \<ge> 3) (groupby_title (filter (in_month m) df)))"
      by (simp only: eq)
  qed
qed

lemma distinct_titles_kept:
  "distinct (map group_title (filter P (groupby_title md)))"
proof -
  have "distinct (map group_title (groupby_title md))"
    by (simp add: titles_groupby)
  then show ?thesis by (rule distinct_map_filter)
qed

lemma find_recurring_events_set:
  assumes "sorts_descending srt"
  shows "g \<in> set (find_recurring_events srt df m) \<longleftrightarrow>
     3 \<le> occurrences df m (group_title g) \<and> g = aggregate (filter (in_month m) df) (group_title g)"
proof (cases "filter (in_month m) df = []")
  case True
  then have "rows_of df m t = []" for t
    by (simp add: rows_of_month_data[symmetric])
  then have "occurrences df m t = 0" for t by (simp add: occurrences_def)
  then show ?thesis using True by (simp add: find_recurring_events_def)
next
  case False
  have "set (srt gs) = set gs" for gs
    using assms by (metis sorts_descending_def mset_eq_setD)
  then show ?thesis using False kept_groups[of g m df]
    by (simp add: find_recurring_events_def Let_def)
qed

lemma find_recurring_events_distinct:
  assumes "sorts_descending srt"
  shows "distinct (map group_title (find_recurring_events srt df m))"
proof (cases "filter (in_month m) df = []")
  case True
  then show ?thesis by (simp add: find_recurring_events_def)
next
  case False
  let ?G = "filter (\<lambda>g. group_count g \<ge> 3) (groupby_title (filter (in_month m) df))"
  have "mset (srt ?G) = mset ?G" using assms by (simp add: sorts_descending_def)
  then have "mset (map group_title (srt ?G)) = mset (map group_title ?G)" by simp
  then have "distinct (map group_title (srt ?G)) = distinct (map group_title ?G)"
    by (rule mset_eq_imp_distinct_iff)
  then show ?thesis using False distinct_titles_kept[of _ "filter (in_month m) df"]
    by (simp add: find_recurring_events_def Let_def)
qed

lemma find_recurring_events_sorted:
  assumes "sorts_descending srt"
  shows "sorted_wrt (\<lambda>g h. group_count g \<ge> group_count h) (find_recurring_events srt df m)"
  using assms by (simp add: find_recurring_events_def Let_def sorts_descending_def)

text \<open>
  Claim C3. Whatever descending sort \<open>sort_values\<close> stands for: every group of the result
  has a count of at least 3; the result is in descending order of the count; the count of
  a group is the number of rows of the month with its title, and its category and body
  are those of the first such row in table order; the titles of the result are exactly
  the titles with at least 3 rows in the month, each once; and so the result is empty
  exactly when no title reaches 3 rows in the month.
\<close>

theorem recurring_events_summary:
  assumes "sorts_descending sort_values"
  shows "(\<forall>g \<in> set (find_recurring_events sort_values df m). 3 \<le> group_count g) \<and>
    sorted_wrt (\<lambda>g h. group_count g \<ge> group_count h) (find_recurring_events sort_values df m) \<and>
    (\<forall>g \<in> set (find_recurring_events sort_values df m).
       \<exists>first rest. rows_of df m (group_title g) = first # rest \<and>
         group_count g = int (length (first # rest)) \<and>
         first_category g = category first \<and> first_body g = body first) \<and>
    group_title ` set (find_recurring_events sort_values df m) = {t. 3 \<le> occurrences df m t} \<and>
    distinct (map group_title (find_recurring_events sort_values df m)) \<and>
    (find_recurring_events sort_values df m = []) = (\<forall>t. occurrences df m t < 3)"
proof -
  let ?R = "find_recurring_events sort_values df m"
  note mem = find_recurring_events_set[OF assms, of _ df m]
  have count: "\<forall>g \<in> set ?R. 3 \<le> group_count g"
  proof
    fix g assume g: "g \<in> set ?R"
    then have occ: "3 \<le> occurrences df m (group_title g)"
      and eq: "g = aggregate (filter (in_month m) df) (group_title g)"
      by (simp_all add: mem)
    from eq have "group_count g = int (occurrences df m (group_title g))"
      by (metis group_count_aggregate)
    with occ show "3 \<le> group_count g" by simp
  qed
  have first: "\<forall>g \<in> set ?R.
       \<exists>first rest. rows_of df m (group_title g) = first # rest \<and>
         group_count g = int (length (first # rest)) \<and>
         first_category g = category first \<and> first_body g = body first"
  proof
    fix g assume g: "g \<in> set ?R"
    then have occ: "3 \<le> occurrences df m (group_title g)"
      and eq: "g = aggregate (filter (in_month m) df) (group_title g)"
      by (simp_all add: mem)
    from occ obtain first rest where r: "rows_of df m (group_title g) = first # rest"
      by (cases "rows_of df m (group_title g)") (auto simp add: occurrences_def)
    have "group_count g = int (length (first # rest))"
      and "first_category g = category first" and "first_body g = body first"
      using eq r
      by (metis group_count_aggregate occurrences_def,
          metis first_category_aggregate list.sel(1),
          metis first_body_aggregate list.sel(1))
    with r show "\<exists>first rest. rows_of df m (group_title g) = first # rest \<and>
         group_count g = int (length (first # rest)) \<and>
         first_category g = category first \<and> first_body g = body first"
      by blast
  qed
  have titles: "group_title ` set ?R = {t. 3 \<le> occurrences df m t}"
  proof (intro set_eqI iffI)
    fix t assume "t \<in> group_title ` set ?R"
    then show "t \<in> {t. 3 \<le> occurrences df m t}" by (auto simp add: mem)
  next
    fix t assume "t \<in> {t. 3 \<le> occurrences df m t}"
    then have "aggregate (filter (in_month m) df) t \<in> set ?R" by (simp add: mem)
    then have "group_title (aggregate (filter (in_month m) df) t) \<in> group_title ` set ?R"
      by (rule imageI)
    then show "t \<in> group_title ` set ?R" by simp
  qed
  have empty: "(?R = []) = (\<forall>t. occurrences df m t < 3)"
  proof -
    have "(?R = []) = (group_title ` set ?R = {})" by simp
    also have "\<dots> = ({t. 3 \<le> occurrences df m t} = {})" by (simp only: titles)
    also have "\<dots> = (\<forall>t. occurrences df m t < 3)" by (auto simp add: not_le)
    finally show ?thesis .
  qed
  from count find_recurring_events_sorted[OF assms] first titles
    find_recurring_events_distinct[OF assms] empty
  show ?thesis by blast
qed

lemma march_recurring:
  "find_recurring_events insertion_sort_values march_table 3 =
     [\<lparr>group_title = ''Spring cleaning'', group_count = 4,
        first_category = ''notice'', first_body = ''bring gloves''\<rparr>]"
  by code_simp

theorem recurring_events_summary_witness:
  "sorts_descending insertion_sort_values \<and>
   find_recurring_events insertion_sort_values march_table 3 =
     [\<lparr>group_title = ''Spring cleaning'', group_count = 4,
        first_category = ''notice'', first_body = ''bring gloves''\<rparr>] \<and>
   sorted_wrt (\<lambda>g h. group_count g \<ge> group_count h)
     (find_recurring_events insertion_sort_values march_table 3) \<and>
   group_title ` set (find_recurring_events insertion_sort_values march_table 3)
     = {t. 3 \<le> occurrences march_table 3 t} \<and>
   distinct (map group_title (find_recurring_events insertion_sort_values march_table 3)) \<and>
   (find_recurring_events insertion_sort_values march_table 3 = [])
     = (\<forall>t. occurrences march_table 3 t < 3)"
  using recurring_events_summary[OF insertion_sort_values_sorts, of march_table 3]
    insertion_sort_values_sorts march_recurring
  by blast

lemma groupby_same_rows:
  assumes "\<forall>t. rows_of df1 m t = rows_of df2 m t"
  shows "groupby_title (filter (in_month m) df1) = groupby_title (filter (in_month m) df2)"
proof -
  have "(t \<in> title ` set (filter (in_month m) df1)) = (t \<in> title ` set (filter (in_month m) df2))" for t
    unfolding title_in_month_data using assms by simp
  then have "title ` set (filter (in_month m) df1) = title ` set (filter (in_month m) df2)"
    by blast
  then have "set (remdups (map title (filter (in_month m) df1)))
      = set (remdups (map title (filter (in_month m) df2)))" by simp
  then have "sort (remdups (map title (filter (in_month m) df1)))
      = sort (remdups (map title (filter (in_month m) df2)))"
    by (intro sorted_distinct_set_unique) simp_all
  moreover have "aggregate (filter (in_month m) df1) t = aggregate (filter (in_month m) df2) t" for t
    using assms by (simp add: aggregate_month_data occurrences_def)
  ultimately show ?thesis by (simp add: groupby_title_def)
qed

lemma month_data_empty: "(filter (in_month m) df = []) = (\<forall>t. rows_of df m t = [])"
proof -
  have "(filter (in_month m) df = []) = (title ` set (filter (in_month m) df) = {})"
    by (metis image_is_empty set_empty)
  also have "\<dots> = (\<forall>t. t \<notin> title ` set (filter (in_month m) df))" by auto
  also have "\<dots> = (\<forall>t. rows_of df m t = [])"
    by (simp only: title_in_month_data not_not)
  finally show ?thesis .
qed

text \<open>
  Claim C7, amended. The order of the groups, and so the order among groups of equal
  count, does not depend on where the titles first occur in the table: two tables with
  the same rows of the month for every title give the same result, however the titles
  are interleaved. The groups reach the sort in ascending order of the title, and the
  sort is left to put groups of equal count in any order.
\<close>

theorem recurring_order_ignores_first_occurrence:
  assumes "\<forall>t. rows_of df1 m t = rows_of df2 m t"
  shows "find_recurring_events sort_values df1 m = find_recurring_events sort_values df2 m"
proof -
  have "(filter (in_month m) df1 = []) = (filter (in_month m) df2 = [])"
    using assms by (simp add: month_data_empty)
  then show ?thesis using groupby_same_rows[OF assms]
    by (simp add: find_recurring_events_def Let_def)
qed

lemma same_rows_per_title:
  "\<forall>t. rows_of cleaning_first_table 3 t = rows_of easter_first_table 3 t"
  by (simp add: rows_of_def cleaning_first_table_def easter_first_table_def row_def in_month_def)

theorem recurring_order_ignores_first_occurrence_witness:
  "(\<forall>t. rows_of cleaning_first_table 3 t = rows_of easter_first_table 3 t) \<and>
   first_occurrence cleaning_first_table 3 ''Spring cleaning''
     < first_occurrence cleaning_first_table 3 ''Easter service'' \<and>
   first_occurrence easter_first_table 3 ''Easter service''
     < first_occurrence easter_first_table 3 ''Spring cleaning'' \<and>
   find_recurring_events insertion_sort_values cleaning_first_table 3
     = find_recurring_events insertion_sort_values easter_first_table 3"
proof -
  have 1: "first_occurrence cleaning_first_table 3 ''Spring cleaning''
     < first_occurrence cleaning_first_table 3 ''Easter service''" by code_simp
  have 2: "first_occurrence easter_first_table 3 ''Easter service''
     < first_occurrence easter_first_table 3 ''Spring cleaning''" by code_simp
  from recurring_order_ignores_first_occurrence[OF same_rows_per_title, of insertion_sort_values]
    same_rows_per_title 1 2
  show ?thesis by blast
qed

lemma kept_cleaning_first:
  "filter (in_month 3) cleaning_first_table \<noteq> [] \<and>
   filter (\<lambda>g. group_count g \<ge> 3) (groupby_title (filter (in_month 3) cleaning_first_table))
     = [easter_group, cleaning_group]"
  by code_simp

lemma kept_easter_first:
  "filter (in_month 3) easter_first_table \<noteq> [] \<and>
   filter (\<lambda>g. group_count g \<ge> 3) (groupby_title (filter (in_month 3) easter_first_table))
     = [easter_group, cleaning_group]"
  by code_simp

lemma two_element_arrangements:
  assumes "mset xs = mset [a, b]"
  shows "xs = [a, b] \<or> xs = [b, a]"
proof -
  from assms have "length xs = 2" by (metis length_Cons list.size(3) mset_eq_length numeral_2_eq_2)
  then obtain x y where xs: "xs = [x, y]"
    by (metis (no_types, opaque_lifting) length_0_conv length_Suc_conv numeral_2_eq_2)
  with assms have "{#x, y#} = {#a, b#}" by simp
  then have "(x = a \<and> y = b) \<or> (x = b \<and> y = a)"
    by (auto simp add: add_eq_conv_ex)
  with xs show ?thesis by blast
qed

lemma ties_cleaning_first:
  "\<not> ties_keep_first_occurrence cleaning_first_table 3 [easter_group, cleaning_group]"
  by code_simp

lemma ties_easter_first:
  "\<not> ties_keep_first_occurrence easter_first_table 3 [cleaning_group, easter_group]"
  by code_simp

text \<open>
  Claim C7, as stated, fails. Two tables hold the same six rows of March, three for each
  of two titles; one starts with the cleaning rows, the other with the Easter rows.
  Whatever descending sort is used, the result cannot keep the order of first occurrence
  for both tables: both results are the same sequence.
\<close>

theorem tie_order_counterexample:
  "\<forall>sort_values.
     \<not> (sorts_descending sort_values \<and>
        ties_keep_first_occurrence cleaning_first_table 3
          (find_recurring_events sort_values cleaning_first_table 3) \<and>
        ties_keep_first_occurrence easter_first_table 3
          (find_recurring_events sort_values easter_first_table 3))"
proof (intro allI notI)
  fix sort_values :: sorter
  assume a: "sorts_descending sort_values \<and>
        ties_keep_first_occurrence cleaning_first_table 3
          (find_recurring_events sort_values cleaning_first_table 3) \<and>
        ties_keep_first_occurrence easter_first_table 3
          (find_recurring_events sort_values easter_first_table 3)"
  have r1: "find_recurring_events sort_values cleaning_first_table 3
      = sort_values [easter_group, cleaning_group]"
    using kept_cleaning_first by (simp add: find_recurring_events_def Let_def)
  have r2: "find_recurring_events sort_values easter_first_table 3
      = sort_values [easter_group, cleaning_group]"
    using kept_easter_first by (simp add: find_recurring_events_def Let_def)
  from a have "mset (sort_values [easter_group, cleaning_group]) = mset [easter_group, cleaning_group]"
    by (simp add: sorts_descending_def)
  then have "sort_values [easter_group, cleaning_group] = [easter_group, cleaning_group]
      \<or> sort_values [easter_group, cleaning_group] = [cleaning_group, easter_group]"
    by (rule two_element_arrangements)
  then show False
  proof
    assume "sort_values [easter_group, cleaning_group] = [easter_group, cleaning_group]"
    with a r1 ties_cleaning_first show False by simp
  next
    assume "sort_values [easter_group, cleaning_group] = [cleaning_group, easter_group]"
    with a r2 ties_easter_first show False by simp
  qed
qed

section \<open>Properties of the suggestion composer\<close>

lemma past_events_length: "length (past_events df m) \<le> 50"
  by (simp add: past_events_def)

lemma record_of_not_serializable: "\<not> serializable (record_of e)"
  by (simp add: record_of_def split: option.splits)

lemma past_events_raise:
  assumes "filter (in_month m) df \<noteq> []"
  shows "json_dumps encode (PyList (past_events df m)) = Inl TypeError"
proof -
  from assms obtain e es where "filter (in_month m) df = e # es"
    by (cases "filter (in_month m) df") auto
  then show ?thesis
    by (simp add: json_dumps_def past_events_def record_of_not_serializable)
qed

lemma suggest_raises_for_month_with_rows:
  assumes "filter (in_month m) df \<noteq> []"
  shows "suggest_next_month_ads sort_values encode api df m s = Inl TypeError"
  using past_events_raise[OF assms] by (simp add: suggest_next_month_ads_def)

text \<open>
  Claim C9 says that the function writes up to 50 entries of the month, with their date,
  category, title and body, into the prompt that it hands to the gateway. The payload is
  built as the claim says (\<open>payload_bounds\<close> below), but every entry carries its date as
  a timestamp, which \<open>json.dumps\<close> cannot encode. For any table whose first row lies in
  the target month, whatever the rest of the table, the session and the provider, the
  function raises \<open>TypeError\<close> while it formats the prompt: no prompt is built and the
  gateway is never called. Only a month without rows gets its prompt
  (\<open>suggest_for_month_without_rows\<close>), and that prompt holds no entry.
\<close>

theorem suggest_raises_type_error:
  "suggest_next_month_ads sort_values encode api (row y m d c t b # df) m s = Inl TypeError"
  by (rule suggest_raises_for_month_with_rows) (simp add: row_def in_month_def)

lemma index_item_serializable: "serializable (snd (index_item g))"
  by (simp add: index_item_def)

lemma suggest_for_month_without_rows:
  assumes "filter (in_month m) df = []"
  shows "suggest_next_month_ads sort_values encode api df m s =
     Inr (call_gemini_with_retry api
            (build_prompt m (encode (PyList [])) (encode (PyDict []))) suggestion_config s)"
  using assms
  by (simp add: suggest_next_month_ads_def json_dumps_def past_events_def recurring_events_def
      find_recurring_events_def)

lemma payload_bounds:
  "past_events df m = map record_of (take 50 (filter (in_month m) df)) \<and>
   length (past_events df m) \<le> 50 \<and>
   length (recurring_events sort_values df m) \<le> 20 \<and>
   map fst (recurring_events sort_values df m)
     = map group_title (take 20 (find_recurring_events sort_values df m))"
  by (simp add: past_events_def recurring_events_def index_item_def comp_def)

end
